theory Spec2Isabelle
  imports Complex_Main
begin

section \<open>Configuration and registry candidates\<close>

text \<open>
  The service reads three tunables from the process environment, each with a default
  applied at the point of use (\<^verbatim>\<open>process.env.X || default\<close>). A field is \<open>None\<close>
  when the variable is unset or empty and \<open>Some v\<close> when it holds the number \<open>v\<close>
  (the value \<^verbatim>\<open>parseFloat\<close> / \<^verbatim>\<open>parseInt\<close> reads from it). JavaScript numbers are
  modelled as real numbers: no rounding, no NaN, no infinities.
\<close>

record config =
  MAX_MATCH_RADIUS :: "real option"
  MATCH_SCORE_THRESHOLD :: "real option"
  MAX_MATCHES_PER_REQUEST :: "int option"
  RABBITMQ_QUEUE_NOTIFICATION :: "string option"
  RABBITMQ_QUEUE_SOS :: "string option"

definition maxDistance :: "config \<Rightarrow> real" where
  "maxDistance cfg = (case MAX_MATCH_RADIUS cfg of None \<Rightarrow> 50 | Some r \<Rightarrow> r)"

definition threshold :: "config \<Rightarrow> real" where
  "threshold cfg = (case MATCH_SCORE_THRESHOLD cfg of None \<Rightarrow> 5.0 | Some t \<Rightarrow> t)"

definition maxMatches :: "config \<Rightarrow> int" where
  "maxMatches cfg = (case MAX_MATCHES_PER_REQUEST cfg of None \<Rightarrow> 10 | Some n \<Rightarrow> n)"

record coords =
  latitude :: real
  longitude :: real

text \<open>
  Candidates as the skill/resource registry returns them. \<open>trustScore\<close> may be absent
  (\<open>None\<close>); the other properties are present on a well-formed candidate.
\<close>

record candidate =
  userId :: string
  availability :: string
  location :: coords

record skill = candidate +
  skillId :: string
  skillType :: string
  verified :: bool
  trustScore :: "real option"
  certificationLevel :: string

record resource = candidate +
  resourceId :: string
  resourceType :: string

section \<open>Scoring\<close>

text \<open>
  \<^verbatim>\<open>skill.trustScore || 5.0\<close>: JavaScript's \<^verbatim>\<open>||\<close> yields its right operand when the left
  one is falsy, that is when the property is absent and also when it is the number 0.
\<close>

fun trustScore_or :: "real option \<Rightarrow> real \<Rightarrow> real" where
  "trustScore_or None d = d"
| "trustScore_or (Some t) d = (if t = 0 then d else t)"

definition calculateMatchScore :: "config \<Rightarrow> skill \<Rightarrow> real \<Rightarrow> string \<Rightarrow> real" where
  "calculateMatchScore cfg skill distance urgency =
     (let score = 0;
          score = score + trustScore_or (trustScore skill) 5.0 * 0.4;
          distanceScore = max 0 (10 - (distance / maxDistance cfg) * 10);
          score = score + distanceScore * 0.3;
          urgencyMultiplier =
            (if urgency = ''critical'' then 1.2 else if urgency = ''high'' then 1.1 else 1.0);
          score = score * urgencyMultiplier;
          score =
            (if certificationLevel skill = ''expert'' then score + 1.0
             else if certificationLevel skill = ''intermediate'' then score + 0.5
             else score)
      in min 10 score)"

text \<open>
  The scoring formula as the specification words it: the trust score is the candidate's
  own value, and 5.0 only when the candidate carries none.
\<close>

definition spec_score :: "real option \<Rightarrow> real \<Rightarrow> real \<Rightarrow> string \<Rightarrow> string \<Rightarrow> real" where
  "spec_score trust distance maxRadius urgency certification =
     (let t = (case trust of None \<Rightarrow> 5.0 | Some v \<Rightarrow> v);
          base = t * 0.4 + max 0 (10 - (distance / maxRadius) * 10) * 0.3;
          multiplier =
            (if urgency = ''critical'' then 1.2 else if urgency = ''high'' then 1.1 else 1.0);
          score = base * multiplier;
          score = score + (if certification = ''expert'' then 1.0
                           else if certification = ''intermediate'' then 0.5 else 0)
      in min 10 score)"

section \<open>Collaborators and the state of a run\<close>

datatype error = AxiosError | DatabaseError

text \<open>
  The collaborators of the service, as oracles: the disaster registry, the skill and
  resource registry (the response to the \<open>n\<close>-th request sent to each endpoint, an error
  or the \<^verbatim>\<open>skills\<close> / \<^verbatim>\<open>resources\<close> property of the body, \<open>None\<close> when the body has
  none), the SOS service, the store (whether the \<open>n\<close>-th statement sent to it succeeds:
  connection loss, constraint and range violations are all failures of the statement),
  the identifier generator, and \<^verbatim>\<open>calculateDistance\<close> of \<^verbatim>\<open>utils/distance\<close>.
\<close>

record env =
  disasters_get :: "string \<Rightarrow> error + string"
  skills_get :: "nat \<Rightarrow> error + skill list option"
  resources_get :: "nat \<Rightarrow> error + resource list option"
  sos_put_ok :: "string \<Rightarrow> bool"
  db_ok :: "nat \<Rightarrow> bool"
  uuidv4 :: "nat \<Rightarrow> string"
  calculateDistance :: "real \<Rightarrow> real \<Rightarrow> real \<Rightarrow> real \<Rightarrow> real"

text \<open>The objects pushed by the two matchers, and the saved matches of a run.\<close>

record skill_match =
  volunteerId :: string
  skillId_m :: string
  skillType_m :: string
  matchScore :: real
  distance :: real
  trustScore_m :: real
  availability_m :: string

record resource_match =
  resourceId_m :: string
  resourceType_m :: string
  ownerId :: string
  distance_r :: real

datatype saved_match =
  SavedSkill skill_match string
| SavedResource resource_match string

text \<open>A row of the table \<^verbatim>\<open>matches\<close>; a nullable column is an option.\<close>

record match_row =
  match_id :: string
  request_id :: string
  volunteer_id :: string
  skill_id :: "string option"
  resource_id :: "string option"
  skill_type :: "string option"
  resource_type :: "string option"
  match_score :: real
  distance_col :: "real option"
  trust_score :: "real option"
  status :: string
  created_at :: nat
  accepted_at :: "nat option"
  rejected_at :: "nat option"
  rejection_reason :: "string option"
  updated_at :: nat

datatype event =
  MatchCreated string string "string option" "string option" "string option"
| MatchAccepted string string "string option"

text \<open>
  The state a run reads and changes: the tags on whose behalf a request went to the skill
  and to the resource endpoint (in order; the position of a request is the index the
  oracle answers), counters of generated identifiers and of statements sent to the store,
  the clock behind \<^verbatim>\<open>CURRENT_TIMESTAMP\<close>, the table, the status reports sent to the SOS
  service (request id, status, and whether the call succeeded: a failure is caught and
  logged), and the messages handed to the queue.
\<close>

record world =
  skill_queries :: "string list"
  resource_queries :: "string list"
  uuid_calls :: nat
  db_calls :: nat
  clock :: nat
  matches_table :: "match_row list"
  status_reports :: "(string \<times> string \<times> bool) list"
  published :: "(string \<times> event) list"

text \<open>
  Modelled from the spec: \<^verbatim>\<open>publishToQueue\<close> of \<^verbatim>\<open>config/messageQueue\<close> is not among the
  sources; it is the best-effort, fire-and-forget emission of an event to a named queue.
\<close>

definition publishToQueue :: "string \<Rightarrow> event \<Rightarrow> world \<Rightarrow> world" where
  "publishToQueue queue message w = w\<lparr>published := published w @ [(queue, message)]\<rparr>"

text \<open>\<^verbatim>\<open>process.env.Q || 'name'\<close>: the default also replaces an empty name.\<close>

fun queue_or :: "string option \<Rightarrow> string \<Rightarrow> string" where
  "queue_or None d = d"
| "queue_or (Some q) d = (if q = [] then d else q)"

section \<open>The disaster-skill table\<close>

text \<open>
  Reading a property of an object literal gives the listed value for an own key, the
  inherited member for a key of \<^verbatim>\<open>Object.prototype\<close> (a function or an object: truthy,
  and not iterable), and \<^verbatim>\<open>undefined\<close> for any other key.
\<close>

datatype 'a property = Undefined | Own 'a | Inherited

definition object_prototype_keys :: "string list" where
  "object_prototype_keys =
     [''constructor'', ''__defineGetter__'', ''__defineSetter__'', ''hasOwnProperty'',
      ''__lookupGetter__'', ''__lookupSetter__'', ''isPrototypeOf'',
      ''propertyIsEnumerable'', ''toString'', ''valueOf'', ''__proto__'',
      ''toLocaleString'']"

definition DISASTER_SKILL_MAP :: "string \<Rightarrow> string list property" where
  "DISASTER_SKILL_MAP disasterType =
     (if disasterType = ''flood''
        then Own [''boat_operator'', ''swimmer'', ''medic'', ''rescue_diver'']
      else if disasterType = ''earthquake''
        then Own [''rescuer'', ''structural_engineer'', ''medic'', ''heavy_lifting'']
      else if disasterType = ''cyclone''
        then Own [''shelter_manager'', ''logistics'', ''medic'', ''evacuation_specialist'']
      else if disasterType = ''fire''
        then Own [''firefighter'', ''electrician'', ''medic'', ''smoke_diver'']
      else if disasterType = ''tsunami''
        then Own [''rescue_diver'', ''medic'', ''boat_operator'', ''swimmer'']
      else if disasterType = ''landslide''
        then Own [''rescuer'', ''medic'', ''heavy_lifting'', ''structural_engineer'']
      else if disasterType \<in> set object_prototype_keys then Inherited
      else Undefined)"

section \<open>The matchers\<close>

text \<open>
  \<^verbatim>\<open>matches.slice(0, n)\<close>: a negative \<open>n\<close> counts from the end of the array.
\<close>

definition slice0 :: "'a list \<Rightarrow> int \<Rightarrow> 'a list" where
  "slice0 xs n = (if n < 0 then take (nat (int (length xs) + n)) xs else take (nat n) xs)"

text \<open>The inner loop of \<^verbatim>\<open>findSkillMatches\<close>: score each filtered candidate, push the
  ones at or above the threshold.\<close>

fun scoreSkills ::
  "env \<Rightarrow> config \<Rightarrow> coords \<Rightarrow> string \<Rightarrow> skill list \<Rightarrow> skill_match list \<Rightarrow> skill_match list"
where
  "scoreSkills env cfg loc urgency [] matches = matches"
| "scoreSkills env cfg loc urgency (skill # rest) matches =
     (let dist = calculateDistance env (latitude loc) (longitude loc)
                   (latitude (location skill)) (longitude (location skill));
          score = calculateMatchScore cfg skill dist urgency
      in scoreSkills env cfg loc urgency rest
           (if score \<ge> threshold cfg
            then matches @
              [\<lparr>volunteerId = userId skill, skillId_m = skillId skill,
                skillType_m = skillType skill, matchScore = score, distance = dist,
                trustScore_m = trustScore_or (trustScore skill) 5.0,
                availability_m = availability skill\<rparr>]
            else matches))"

text \<open>
  The loop over the tags. Each iteration sends one request; a failed request is caught
  and logged inside the iteration, and the loop goes on with the next tag.
\<close>

fun skillLoop ::
  "env \<Rightarrow> config \<Rightarrow> coords \<Rightarrow> string \<Rightarrow> string list \<Rightarrow> skill_match list \<times> world
     \<Rightarrow> skill_match list \<times> world"
where
  "skillLoop env cfg loc urgency [] (matches, w) = (matches, w)"
| "skillLoop env cfg loc urgency (tag # rest) (matches, w) =
     (let w' = w\<lparr>skill_queries := skill_queries w @ [tag]\<rparr> in
      case skills_get env (length (skill_queries w)) of
        Inl e \<Rightarrow> skillLoop env cfg loc urgency rest (matches, w')
      | Inr body \<Rightarrow>
          (let availableSkills = (case body of None \<Rightarrow> [] | Some skills \<Rightarrow> skills);
               filteredSkills =
                 filter (\<lambda>skill. skillType skill = tag \<and>
                                  availability skill = ''available'' \<and>
                                  verified skill = True) availableSkills
           in skillLoop env cfg loc urgency rest
                (scoreSkills env cfg loc urgency filteredSkills matches, w')))"

text \<open>
  \<^verbatim>\<open>findSkillMatches\<close>. When \<^verbatim>\<open>requiredSkills\<close> is empty and the table lookup gives an
  inherited member, \<^verbatim>\<open>for ... of\<close> raises a TypeError before any request is sent, and
  the outer handler returns the empty array. The sort is stable, by descending score.
\<close>

definition findSkillMatches ::
  "env \<Rightarrow> config \<Rightarrow> string \<Rightarrow> string list \<Rightarrow> coords \<Rightarrow> string \<Rightarrow> world
     \<Rightarrow> skill_match list \<times> world"
where
  "findSkillMatches env cfg disasterType requiredSkills loc urgency w =
     (let relevantSkills =
            (case DISASTER_SKILL_MAP disasterType of Undefined \<Rightarrow> Own [] | v \<Rightarrow> v);
          skillsToFind = (if length requiredSkills > 0 then Own requiredSkills
                          else relevantSkills)
      in case skillsToFind of
           Own tags \<Rightarrow>
             (let (matches, w') = skillLoop env cfg loc urgency tags ([], w);
                  ranked = sort_key (\<lambda>m. - matchScore m) matches
              in (slice0 ranked (maxMatches cfg), w'))
         | _ \<Rightarrow> ([], w))"

fun collectResources ::
  "env \<Rightarrow> coords \<Rightarrow> resource list \<Rightarrow> resource_match list \<Rightarrow> resource_match list"
where
  "collectResources env loc [] matches = matches"
| "collectResources env loc (resource # rest) matches =
     (let dist = calculateDistance env (latitude loc) (longitude loc)
                   (latitude (location resource)) (longitude (location resource))
      in collectResources env loc rest
           (matches @
              [\<lparr>resourceId_m = resourceId resource,
                resourceType_m = resourceType resource,
                ownerId = userId resource, distance_r = dist\<rparr>]))"

fun resourceLoop ::
  "env \<Rightarrow> coords \<Rightarrow> string list \<Rightarrow> resource_match list \<times> world
     \<Rightarrow> resource_match list \<times> world"
where
  "resourceLoop env loc [] (matches, w) = (matches, w)"
| "resourceLoop env loc (tag # rest) (matches, w) =
     (let w' = w\<lparr>resource_queries := resource_queries w @ [tag]\<rparr> in
      case resources_get env (length (resource_queries w)) of
        Inl e \<Rightarrow> resourceLoop env loc rest (matches, w')
      | Inr body \<Rightarrow>
          (let availableResources = (case body of None \<Rightarrow> [] | Some rs \<Rightarrow> rs);
               filteredResources =
                 filter (\<lambda>resource. resourceType resource = tag \<and>
                                     availability resource = ''available'')
                   availableResources
           in resourceLoop env loc rest
                (collectResources env loc filteredResources matches, w')))"

definition findResourceMatches ::
  "env \<Rightarrow> config \<Rightarrow> string \<Rightarrow> string list \<Rightarrow> coords \<Rightarrow> string \<Rightarrow> world
     \<Rightarrow> resource_match list \<times> world"
where
  "findResourceMatches env cfg disasterType requiredResources loc urgency w =
     (let (matches, w') = resourceLoop env loc requiredResources ([], w);
          ranked = sort_key distance_r matches
      in (slice0 ranked (maxMatches cfg), w'))"

section \<open>What the matchers compute\<close>

text \<open>
  Notions used to state the properties of the matchers: the distance of a candidate, the
  object \<^verbatim>\<open>findSkillMatches\<close> pushes for it, the test a candidate passes to be pushed
  under a tag, the candidates the \<open>n\<close>-th request to the skill endpoint yields (none when
  the request fails or the body has no list), the matches pushed by the loop over the
  tags before sorting and truncation, and the tags the loop runs over.
\<close>

definition skillDistance :: "env \<Rightarrow> coords \<Rightarrow> skill \<Rightarrow> real" where
  "skillDistance env loc skill =
     calculateDistance env (latitude loc) (longitude loc)
       (latitude (location skill)) (longitude (location skill))"

definition pushedSkill :: "env \<Rightarrow> config \<Rightarrow> coords \<Rightarrow> string \<Rightarrow> skill \<Rightarrow> skill_match" where
  "pushedSkill env cfg loc urgency skill =
     \<lparr>volunteerId = userId skill, skillId_m = skillId skill,
      skillType_m = skillType skill,
      matchScore = calculateMatchScore cfg skill (skillDistance env loc skill) urgency,
      distance = skillDistance env loc skill,
      trustScore_m = trustScore_or (trustScore skill) 5.0,
      availability_m = availability skill\<rparr>"

definition qualifies :: "env \<Rightarrow> config \<Rightarrow> coords \<Rightarrow> string \<Rightarrow> string \<Rightarrow> skill \<Rightarrow> bool" where
  "qualifies env cfg loc urgency tag skill =
     (skillType skill = tag \<and> availability skill = ''available'' \<and> verified skill = True \<and>
      threshold cfg \<le> calculateMatchScore cfg skill (skillDistance env loc skill) urgency)"

definition skillsOf :: "env \<Rightarrow> nat \<Rightarrow> skill list" where
  "skillsOf env n =
     (case skills_get env n of
        Inl e \<Rightarrow> [] | Inr None \<Rightarrow> [] | Inr (Some skills) \<Rightarrow> skills)"

fun pushedBy ::
  "env \<Rightarrow> config \<Rightarrow> coords \<Rightarrow> string \<Rightarrow> nat \<Rightarrow> string list \<Rightarrow> skill_match list"
where
  "pushedBy env cfg loc urgency n [] = []"
| "pushedBy env cfg loc urgency n (tag # rest) =
     map (pushedSkill env cfg loc urgency)
       (filter (qualifies env cfg loc urgency tag) (skillsOf env n))
     @ pushedBy env cfg loc urgency (Suc n) rest"

definition searchTags :: "string \<Rightarrow> string list \<Rightarrow> string list" where
  "searchTags disasterType requiredSkills =
     (if requiredSkills \<noteq> [] then requiredSkills
      else case DISASTER_SKILL_MAP disasterType of Own tags \<Rightarrow> tags | _ \<Rightarrow> [])"

text \<open>The same for resources.\<close>

definition resourceDistance :: "env \<Rightarrow> coords \<Rightarrow> resource \<Rightarrow> real" where
  "resourceDistance env loc resource =
     calculateDistance env (latitude loc) (longitude loc)
       (latitude (location resource)) (longitude (location resource))"

definition pushedResource :: "env \<Rightarrow> coords \<Rightarrow> resource \<Rightarrow> resource_match" where
  "pushedResource env loc resource =
     \<lparr>resourceId_m = resourceId resource, resourceType_m = resourceType resource,
      ownerId = userId resource, distance_r = resourceDistance env loc resource\<rparr>"

definition resourcesOf :: "env \<Rightarrow> nat \<Rightarrow> resource list" where
  "resourcesOf env n =
     (case resources_get env n of
        Inl e \<Rightarrow> [] | Inr None \<Rightarrow> [] | Inr (Some rs) \<Rightarrow> rs)"

fun collectedBy :: "env \<Rightarrow> coords \<Rightarrow> nat \<Rightarrow> string list \<Rightarrow> resource_match list" where
  "collectedBy env loc n [] = []"
| "collectedBy env loc n (tag # rest) =
     map (pushedResource env loc)
       (filter (\<lambda>r. resourceType r = tag \<and> availability r = ''available'')
          (resourcesOf env n))
     @ collectedBy env loc (Suc n) rest"

section \<open>Persistence\<close>

text \<open>
  The columns \<^verbatim>\<open>match_score\<close>, \<^verbatim>\<open>distance\<close> and \<^verbatim>\<open>trust_score\<close> are \<^verbatim>\<open>DECIMAL(_, 2)\<close>:
  the store keeps a value rounded to two decimals, ties away from zero.
\<close>

definition decimal2 :: "real \<Rightarrow> real" where
  "decimal2 x = sgn x * real_of_int \<lfloor>\<bar>x\<bar> * 100 + 1 / 2\<rfloor> / 100"

definition saveMatch ::
  "env \<Rightarrow> string \<Rightarrow> string \<Rightarrow> skill_match \<Rightarrow> world \<Rightarrow> (error + unit) \<times> world"
where
  "saveMatch env matchId requestId m w =
     (let w' = w\<lparr>db_calls := Suc (db_calls w)\<rparr> in
      if db_ok env (db_calls w)
      then (Inr (),
            w'\<lparr>matches_table := matches_table w @
                 [\<lparr>match_id = matchId, request_id = requestId,
                   volunteer_id = volunteerId m, skill_id = Some (skillId_m m),
                   resource_id = None, skill_type = Some (skillType_m m),
                   resource_type = None, match_score = decimal2 (matchScore m),
                   distance_col = Some (decimal2 (distance m)),
                   trust_score = Some (decimal2 (trustScore_m m)),
                   status = ''pending'', created_at = clock w, accepted_at = None,
                   rejected_at = None, rejection_reason = None,
                   updated_at = clock w\<rparr>]\<rparr>)
      else (Inl DatabaseError, w'))"

definition saveResourceMatch ::
  "env \<Rightarrow> string \<Rightarrow> string \<Rightarrow> resource_match \<Rightarrow> world \<Rightarrow> (error + unit) \<times> world"
where
  "saveResourceMatch env matchId requestId m w =
     (let w' = w\<lparr>db_calls := Suc (db_calls w)\<rparr> in
      if db_ok env (db_calls w)
      then (Inr (),
            w'\<lparr>matches_table := matches_table w @
                 [\<lparr>match_id = matchId, request_id = requestId,
                   volunteer_id = ownerId m, skill_id = None,
                   resource_id = Some (resourceId_m m), skill_type = None,
                   resource_type = Some (resourceType_m m),
                   match_score = decimal2 8.0,
                   distance_col = Some (decimal2 (distance_r m)),
                   trust_score = None,
                   status = ''pending'', created_at = clock w, accepted_at = None,
                   rejected_at = None, rejection_reason = None,
                   updated_at = clock w\<rparr>]\<rparr>)
      else (Inl DatabaseError, w'))"

section \<open>The orchestrator\<close>

record sos_data =
  requestId :: string
  disasterId :: string
  urgency :: string
  requiredSkills :: "string list option"
  requiredResources :: "string list option"
  sos_location :: coords

text \<open>The two persistence loops: a failed write is rethrown and ends the run.\<close>

fun saveSkillMatches ::
  "env \<Rightarrow> string \<Rightarrow> skill_match list \<Rightarrow> saved_match list \<times> world
     \<Rightarrow> (error + saved_match list) \<times> world"
where
  "saveSkillMatches env rid [] (savedMatches, w) = (Inr savedMatches, w)"
| "saveSkillMatches env rid (m # rest) (savedMatches, w) =
     (let matchId = ''match-'' @ uuidv4 env (uuid_calls w);
          w1 = w\<lparr>uuid_calls := Suc (uuid_calls w)\<rparr>
      in case saveMatch env matchId rid m w1 of
           (Inl e, w2) \<Rightarrow> (Inl e, w2)
         | (Inr u, w2) \<Rightarrow>
             saveSkillMatches env rid rest (savedMatches @ [SavedSkill m matchId], w2))"

fun saveResourceMatches ::
  "env \<Rightarrow> string \<Rightarrow> resource_match list \<Rightarrow> saved_match list \<times> world
     \<Rightarrow> (error + saved_match list) \<times> world"
where
  "saveResourceMatches env rid [] (savedMatches, w) = (Inr savedMatches, w)"
| "saveResourceMatches env rid (m # rest) (savedMatches, w) =
     (let matchId = ''match-'' @ uuidv4 env (uuid_calls w);
          w1 = w\<lparr>uuid_calls := Suc (uuid_calls w)\<rparr>
      in case saveResourceMatch env matchId rid m w1 of
           (Inl e, w2) \<Rightarrow> (Inl e, w2)
         | (Inr u, w2) \<Rightarrow>
             saveResourceMatches env rid rest
               (savedMatches @ [SavedResource m matchId], w2))"

text \<open>
  The \<^verbatim>\<open>match.created\<close> message of a saved match. \<^verbatim>\<open>match.volunteerId || match.ownerId\<close>
  falls through to the absent \<^verbatim>\<open>ownerId\<close> of a skill match whose \<^verbatim>\<open>volunteerId\<close> is empty.
\<close>

fun matchCreated :: "string \<Rightarrow> saved_match \<Rightarrow> event" where
  "matchCreated rid (SavedSkill m matchId) =
     MatchCreated matchId rid (if volunteerId m = [] then None else Some (volunteerId m))
       (Some (skillType_m m)) None"
| "matchCreated rid (SavedResource m matchId) =
     MatchCreated matchId rid (Some (ownerId m)) None (Some (resourceType_m m))"

fun notifyAll :: "config \<Rightarrow> string \<Rightarrow> saved_match list \<Rightarrow> world \<Rightarrow> world" where
  "notifyAll cfg rid [] w = w"
| "notifyAll cfg rid (m # rest) w =
     notifyAll cfg rid rest
       (publishToQueue (queue_or (RABBITMQ_QUEUE_NOTIFICATION cfg) ''notifications.send'')
          (matchCreated rid m) w)"

definition processSOSRequest ::
  "env \<Rightarrow> config \<Rightarrow> sos_data \<Rightarrow> world \<Rightarrow> (error + saved_match list) \<times> world"
where
  "processSOSRequest env cfg sosData w =
     (let disasterType =
            (case disasters_get env (disasterId sosData) of
               Inl e \<Rightarrow> ''flood'' | Inr t \<Rightarrow> t);
          (skillMatches, w1) =
            findSkillMatches env cfg disasterType
              (case requiredSkills sosData of None \<Rightarrow> [] | Some tags \<Rightarrow> tags)
              (sos_location sosData) (urgency sosData) w;
          (resourceMatches, w2) =
            findResourceMatches env cfg disasterType
              (case requiredResources sosData of None \<Rightarrow> [] | Some tags \<Rightarrow> tags)
              (sos_location sosData) (urgency sosData) w1
      in case saveSkillMatches env (requestId sosData) skillMatches ([], w2) of
           (Inl e, w3) \<Rightarrow> (Inl e, w3)
         | (Inr saved, w3) \<Rightarrow>
             (case saveResourceMatches env (requestId sosData) resourceMatches
                     (saved, w3) of
                (Inl e, w4) \<Rightarrow> (Inl e, w4)
              | (Inr savedMatches, w4) \<Rightarrow>
                  (let w5 = w4\<lparr>status_reports := status_reports w4 @
                                  [(requestId sosData, ''matched'',
                                    sos_put_ok env (requestId sosData))]\<rparr>
                   in (Inr savedMatches,
                       notifyAll cfg (requestId sosData) savedMatches w5))))"

section \<open>Accepting and rejecting a match\<close>

datatype response =
  NOT_FOUND
| ServerError error
| Accepted string string "nat option" nat
| Rejected string string "nat option"

text \<open>
  The \<^verbatim>\<open>WHERE\<close> clause of both routes: \<^verbatim>\<open>match_id = $m AND volunteer_id = $v\<close>. A request
  body without \<^verbatim>\<open>volunteerId\<close> binds NULL, which equals no stored value.
\<close>

definition targets :: "string \<Rightarrow> string option \<Rightarrow> match_row \<Rightarrow> bool" where
  "targets matchId vid r =
     (case vid of None \<Rightarrow> False
      | Some v \<Rightarrow> match_id r = matchId \<and> volunteer_id r = v)"

definition accept :: "env \<Rightarrow> config \<Rightarrow> string \<Rightarrow> string option \<Rightarrow> world \<Rightarrow> response \<times> world"
where
  "accept env cfg matchId vid w =
     (let w1 = w\<lparr>db_calls := Suc (db_calls w)\<rparr> in
      if \<not> db_ok env (db_calls w) then (ServerError DatabaseError, w1)
      else
        (let set_accepted = (\<lambda>r. r\<lparr>status := ''accepted'', accepted_at := Some (clock w),
                                   updated_at := clock w\<rparr>);
             rows = map set_accepted (filter (targets matchId vid) (matches_table w));
             w2 = w1\<lparr>matches_table :=
                       map (\<lambda>r. if targets matchId vid r then set_accepted r else r)
                         (matches_table w)\<rparr>
         in case rows of
              [] \<Rightarrow> (NOT_FOUND, w2)
            | row # others \<Rightarrow>
                (Accepted matchId (status row) (accepted_at row) (updated_at row),
                 publishToQueue (queue_or (RABBITMQ_QUEUE_SOS cfg) ''sos.requests'')
                   (MatchAccepted matchId (request_id row) vid) w2)))"

definition reject ::
  "env \<Rightarrow> string \<Rightarrow> string option \<Rightarrow> string option \<Rightarrow> world \<Rightarrow> response \<times> world"
where
  "reject env matchId vid reason w =
     (let w1 = w\<lparr>db_calls := Suc (db_calls w)\<rparr> in
      if \<not> db_ok env (db_calls w) then (ServerError DatabaseError, w1)
      else
        (let set_rejected = (\<lambda>r. r\<lparr>status := ''rejected'', rejected_at := Some (clock w),
                                   rejection_reason := reason, updated_at := clock w\<rparr>);
             rows = map set_rejected (filter (targets matchId vid) (matches_table w));
             w2 = w1\<lparr>matches_table :=
                       map (\<lambda>r. if targets matchId vid r then set_rejected r else r)
                         (matches_table w)\<rparr>
         in case rows of
              [] \<Rightarrow> (NOT_FOUND, w2)
            | row # others \<Rightarrow> (Rejected matchId (status row) (rejected_at row), w2)))"

section \<open>Sample data\<close>

text \<open>A volunteer, a boat, a configuration, collaborators and states to run the code on.\<close>

definition volunteer :: "real option \<Rightarrow> string \<Rightarrow> skill" where
  "volunteer t cert =
     \<lparr>userId = ''u1'', availability = ''available'',
      location = \<lparr>latitude = 0, longitude = 0\<rparr>,
      skillId = ''s1'', skillType = ''medic'', verified = True,
      trustScore = t, certificationLevel = cert\<rparr>"

definition defaults :: config where
  "defaults = \<lparr>MAX_MATCH_RADIUS = None, MATCH_SCORE_THRESHOLD = None,
               MAX_MATCHES_PER_REQUEST = None, RABBITMQ_QUEUE_NOTIFICATION = None,
               RABBITMQ_QUEUE_SOS = None\<rparr>"

definition boat :: "string \<Rightarrow> real \<Rightarrow> resource" where
  "boat owner lat =
     \<lparr>userId = owner, availability = ''available'',
      location = \<lparr>latitude = lat, longitude = 0\<rparr>,
      resourceId = ''r-'' @ owner, resourceType = ''boat''\<rparr>"

definition registry :: env where
  "registry =
     \<lparr>disasters_get = (\<lambda>i. if i = ''d1'' then Inr ''fire'' else Inl AxiosError),
      skills_get = (\<lambda>n. if n = 0 then Inl AxiosError
                         else Inr (Some [volunteer (Some 8) ''expert'',
                                         volunteer (Some 9) ''none''])),
      resources_get = (\<lambda>n. Inr (Some [boat ''u7'' 3, boat ''u8'' 1])),
      sos_put_ok = (\<lambda>r. True),
      db_ok = (\<lambda>n. n \<noteq> 1),
      uuidv4 = (\<lambda>n. replicate (Suc n) CHR ''a''),
      calculateDistance = (\<lambda>lat1 lon1 lat2 lon2. \<bar>lat1 - lat2\<bar> + \<bar>lon1 - lon2\<bar>)\<rparr>"

definition idle :: world where
  "idle = \<lparr>skill_queries = [], resource_queries = [], uuid_calls = 0, db_calls = 0,
           clock = 0, matches_table = [], status_reports = [], published = []\<rparr>"

definition origin :: coords where
  "origin = \<lparr>latitude = 0, longitude = 0\<rparr>"

definition request1 :: sos_data where
  "request1 = \<lparr>requestId = ''req1'', disasterId = ''d1'', urgency = ''medium'',
               requiredSkills = None, requiredResources = Some [''boat''],
               sos_location = origin\<rparr>"

definition reliable :: env where
  "reliable = registry\<lparr>db_ok := (\<lambda>n. True)\<rparr>"

definition pending :: world where
  "pending = snd (saveMatch reliable ''match-a'' ''req1''
                    (pushedSkill reliable defaults origin ''medium''
                       (volunteer (Some 8) ''expert''))
                    (idle\<lparr>clock := 1\<rparr>))"

definition accepted :: world where
  "accepted = (snd (accept reliable defaults ''match-a'' (Some ''u1'')
                      (pending\<lparr>clock := 5\<rparr>)))\<lparr>clock := 7\<rparr>"

section \<open>Properties of the scoring function\<close>

lemma calculateMatchScore_shape:
  "calculateMatchScore cfg skill d urg =
     min 10
       ((trustScore_or (trustScore skill) 5.0 * 0.4 +
         max 0 (10 - (d / maxDistance cfg) * 10) * 0.3) *
        (if urg = ''critical'' then 1.2 else if urg = ''high'' then 1.1 else 1.0) +
        (if certificationLevel skill = ''expert'' then 1.0
         else if certificationLevel skill = ''intermediate'' then 0.5 else 0))"
  by (simp add: calculateMatchScore_def Let_def)

lemma distanceScore_mono:
  fixes r :: real
  assumes "0 < r" "d1 \<le> d2"
  shows "max 0 (10 - (d2 / r) * 10) \<le> max 0 (10 - (d1 / r) * 10)"
proof -
  have "d1 / r \<le> d2 / r" using assms by (simp add: divide_right_mono)
  then show ?thesis by simp
qed

lemma trustScore_or_nonneg:
  "(case t of None \<Rightarrow> True | Some v \<Rightarrow> 0 \<le> v \<and> v \<le> 10) \<Longrightarrow> 0 \<le> trustScore_or t 5.0"
  by (cases t) auto

lemma clamp_nonneg:
  fixes b m c :: real
  shows "0 \<le> b \<Longrightarrow> 0 \<le> m \<Longrightarrow> 0 \<le> c \<Longrightarrow> 0 \<le> min 10 (b * m + c)"
  by simp

lemma clamp_mono:
  fixes b b' m c :: real
  shows "b' \<le> b \<Longrightarrow> 0 \<le> m \<Longrightarrow> min 10 (b' * m + c) \<le> min 10 (b * m + c)"
  by (simp add: min_le_iff_disj mult_right_mono)

text \<open>
  The code computes the formula of the specification for every candidate whose trust score
  is absent or is not 0, and the worked scenario of the specification gives 6.6.
\<close>

lemma calculateMatchScore_formula:
  "trustScore skill \<noteq> Some 0 \<Longrightarrow>
   calculateMatchScore cfg skill d urg =
     spec_score (trustScore skill) d (maxDistance cfg) urg (certificationLevel skill)"
  by (cases "trustScore skill") (simp_all add: calculateMatchScore_def spec_score_def Let_def)

lemma calculateMatchScore_scenario:
  "calculateMatchScore (defaults\<lparr>MAX_MATCH_RADIUS := Some 50\<rparr>)
     (volunteer (Some 8) ''expert'') 10 ''medium'' = 6.6"
  by (simp add: calculateMatchScore_def maxDistance_def defaults_def volunteer_def)

text \<open>
  C2. The score is the specification's formula, base = trustScore * 0.4 + distance part,
  for every trust score in [0, 10]. At trust score 0 it is not: the code scores the
  candidate as if the trust score were 5.0. A verified volunteer with trust score 0, at
  distance 0, urgency medium, no certification, scores 5 where the formula gives 3.
\<close>

theorem calculateMatchScore_zero_trust:
  "calculateMatchScore defaults (volunteer (Some 0) ''none'') 0 ''medium'' = 5 \<and>
   spec_score (trustScore (volunteer (Some 0) ''none'')) 0 (maxDistance defaults) ''medium''
     (certificationLevel (volunteer (Some 0) ''none'')) = 3"
  by (simp add: calculateMatchScore_def spec_score_def maxDistance_def defaults_def
      volunteer_def)

text \<open>
  C3. For a trust score in [0, 10] or absent, a distance of at least 0 and an urgency of
  the enumeration, whatever the certification level, the score lies in [0, 10]. The
  maximum radius is positive.
\<close>

theorem calculateMatchScore_range:
  assumes "0 < maxDistance cfg"
    and "case trustScore skill of None \<Rightarrow> True | Some t \<Rightarrow> 0 \<le> t \<and> t \<le> 10"
    and "0 \<le> d"
    and "urg \<in> {''critical'', ''high'', ''medium'', ''low''}"
  shows "0 \<le> calculateMatchScore cfg skill d urg \<and> calculateMatchScore cfg skill d urg \<le> 10"
proof
  have t: "0 \<le> trustScore_or (trustScore skill) 5.0"
    using assms(2) by (rule trustScore_or_nonneg)
  have b: "0 \<le> trustScore_or (trustScore skill) 5.0 * 0.4 +
                max 0 (10 - (d / maxDistance cfg) * 10) * 0.3"
    using t by (intro add_nonneg_nonneg mult_nonneg_nonneg) simp_all
  show "0 \<le> calculateMatchScore cfg skill d urg"
    unfolding calculateMatchScore_shape using b by (intro clamp_nonneg) simp_all
  show "calculateMatchScore cfg skill d urg \<le> 10"
    unfolding calculateMatchScore_shape by simp
qed

theorem calculateMatchScore_range_witness:
  "0 < maxDistance defaults \<and>
   0 \<le> calculateMatchScore defaults (volunteer (Some 8) ''expert'') 10 ''critical'' \<and>
   calculateMatchScore defaults (volunteer (Some 8) ''expert'') 10 ''critical'' \<le> 10"
  using calculateMatchScore_range
    [of defaults "volunteer (Some 8) ''expert''" 10 "''critical''"]
  by (simp add: maxDistance_def defaults_def volunteer_def)

text \<open>
  C9. With the candidate, the urgency and a positive maximum radius fixed, the score does
  not increase with the distance: for distances 0 \<le> d1 \<le> d2 the score at d1 is at least
  the score at d2.
\<close>

theorem calculateMatchScore_mono:
  assumes "0 < maxDistance cfg" "0 \<le> d1" "d1 \<le> d2"
  shows "calculateMatchScore cfg skill d2 urg \<le> calculateMatchScore cfg skill d1 urg"
proof -
  have "max 0 (10 - (d2 / maxDistance cfg) * 10) \<le> max 0 (10 - (d1 / maxDistance cfg) * 10)"
    using assms(1,3) by (rule distanceScore_mono)
  then have "trustScore_or (trustScore skill) 5.0 * 0.4 +
               max 0 (10 - (d2 / maxDistance cfg) * 10) * 0.3
             \<le> trustScore_or (trustScore skill) 5.0 * 0.4 +
               max 0 (10 - (d1 / maxDistance cfg) * 10) * 0.3"
    by simp
  then show ?thesis
    unfolding calculateMatchScore_shape by (intro clamp_mono) simp_all
qed

theorem calculateMatchScore_mono_witness:
  "0 < maxDistance defaults \<and>
   calculateMatchScore defaults (volunteer None ''none'') 40 ''high''
     \<le> calculateMatchScore defaults (volunteer None ''none'') 10 ''high''"
  using calculateMatchScore_mono [of defaults 10 40 "volunteer None ''none''" "''high''"]
  by (simp add: maxDistance_def defaults_def)

section \<open>Properties of the matchers\<close>

lemma scoreSkills_eq:
  "scoreSkills env cfg loc urg skills acc =
     acc @ map (pushedSkill env cfg loc urg)
            (filter (\<lambda>s. threshold cfg \<le> calculateMatchScore cfg s (skillDistance env loc s) urg)
               skills)"
  by (induction skills arbitrary: acc)
     (simp_all add: Let_def pushedSkill_def skillDistance_def)

lemma skillLoop_eq:
  "skillLoop env cfg loc urg tags (acc, w) =
     (acc @ pushedBy env cfg loc urg (length (skill_queries w)) tags,
      w\<lparr>skill_queries := skill_queries w @ tags\<rparr>)"
proof (induction tags arbitrary: acc w)
  case Nil
  show ?case by simp
next
  case (Cons tag rest)
  have q: "(\<lambda>s. qualifies env cfg loc urg tag s) =
           (\<lambda>s. (skillType s = tag \<and> availability s = ''available'' \<and> verified s = True) \<and>
                 threshold cfg \<le> calculateMatchScore cfg s (skillDistance env loc s) urg)"
    by (auto simp: qualifies_def)
  show ?case
    by (cases "skills_get env (length (skill_queries w))")
       (simp_all add: Cons.IH Let_def scoreSkills_eq skillsOf_def q split: option.splits)
qed

lemma set_pushedBy:
  "m \<in> set (pushedBy env cfg loc urg n tags) \<longleftrightarrow>
     (\<exists>i < length tags. \<exists>s \<in> set (skillsOf env (n + i)).
        qualifies env cfg loc urg (tags ! i) s \<and> m = pushedSkill env cfg loc urg s)"
proof (induction tags arbitrary: n)
  case Nil
  show ?case by simp
next
  case (Cons tag rest)
  show ?case (is "?L \<longleftrightarrow> ?R")
  proof
    assume ?L
    then consider
      (here) "\<exists>s \<in> set (skillsOf env n).
                qualifies env cfg loc urg tag s \<and> m = pushedSkill env cfg loc urg s"
    | (later) "m \<in> set (pushedBy env cfg loc urg (Suc n) rest)"
      by auto
    then show ?R
    proof cases
      case here
      then have "\<exists>s \<in> set (skillsOf env (n + 0)).
                   qualifies env cfg loc urg ((tag # rest) ! 0) s \<and>
                   m = pushedSkill env cfg loc urg s"
        by simp
      then show ?thesis by (intro exI[of _ 0]) simp
    next
      case later
      then obtain i s where "i < length rest" "s \<in> set (skillsOf env (Suc n + i))"
        "qualifies env cfg loc urg (rest ! i) s" "m = pushedSkill env cfg loc urg s"
        using Cons.IH by blast
      then show ?thesis by (intro exI[of _ "Suc i"]) auto
    qed
  next
    assume ?R
    then obtain i s where i: "i < length (tag # rest)"
      and s: "s \<in> set (skillsOf env (n + i))"
        "qualifies env cfg loc urg ((tag # rest) ! i) s" "m = pushedSkill env cfg loc urg s"
      by blast
    show ?L
    proof (cases i)
      case 0
      with s show ?thesis by auto
    next
      case (Suc j)
      with i s have "m \<in> set (pushedBy env cfg loc urg (Suc n) rest)"
        using Cons.IH[of "Suc n"] by auto
      then show ?thesis by simp
    qed
  qed
qed

lemma length_slice0: "0 \<le> n \<Longrightarrow> int (length (slice0 xs n)) \<le> n"
  by (simp add: slice0_def)

lemma set_slice0: "set (slice0 xs n) \<subseteq> set xs"
  by (auto simp: slice0_def dest: in_set_takeD)

lemma sorted_wrt_slice0: "sorted_wrt P xs \<Longrightarrow> sorted_wrt P (slice0 xs n)"
  by (simp add: slice0_def sorted_wrt_take)

lemma slice0_all: "int (length xs) \<le> n \<Longrightarrow> slice0 xs n = xs"
  by (simp add: slice0_def)

lemma descending_sort_key:
  fixes f :: "'a \<Rightarrow> real"
  shows "sorted_wrt (\<lambda>a b. f b \<le> f a) (sort_key (\<lambda>m. - f m) xs)"
proof -
  have "sorted (map (\<lambda>m. - f m) (sort_key (\<lambda>m. - f m) xs))" by (rule sorted_sort_key)
  then show ?thesis by (simp add: sorted_map)
qed

lemma ascending_sort_key:
  fixes f :: "'a \<Rightarrow> real"
  shows "sorted_wrt (\<lambda>a b. f a \<le> f b) (sort_key f xs)"
proof -
  have "sorted (map f (sort_key f xs))" by (rule sorted_sort_key)
  then show ?thesis by (simp add: sorted_map)
qed

lemma findSkillMatches_eq:
  "findSkillMatches env cfg dt req loc urg w =
     (slice0 (sort_key (\<lambda>m. - matchScore m)
                (pushedBy env cfg loc urg (length (skill_queries w)) (searchTags dt req)))
        (maxMatches cfg),
      w\<lparr>skill_queries := skill_queries w @ searchTags dt req\<rparr>)"
  by (cases "DISASTER_SKILL_MAP dt")
     (simp_all add: findSkillMatches_def searchTags_def skillLoop_eq slice0_def)

lemmas run_simps =
  searchTags_def registry_def idle_def origin_def volunteer_def boat_def skillsOf_def
  qualifies_def pushedSkill_def skillDistance_def calculateMatchScore_def maxDistance_def
  threshold_def maxMatches_def defaults_def slice0_def resourcesOf_def pushedResource_def
  resourceDistance_def

text \<open>
  C4. Every element of the result of \<^verbatim>\<open>findSkillMatches\<close> is the match of a candidate
  that a request of this run returned, whose skill type is the tag the request was sent
  for, whose availability is "available", whose verified flag is true and whose score is
  at least the threshold. The result is sorted by non-increasing score, and its length is
  at most the maximum match count (a count that is not negative).
\<close>

theorem findSkillMatches_sound:
  assumes run: "findSkillMatches env cfg dt req loc urg w = (result, w')"
    and cap: "0 \<le> maxMatches cfg"
  shows "(\<forall>m \<in> set result. \<exists>n skill.
            length (skill_queries w) \<le> n \<and> n < length (skill_queries w') \<and>
            skill \<in> set (skillsOf env n) \<and>
            skillType skill = skill_queries w' ! n \<and>
            availability skill = ''available'' \<and> verified skill = True \<and>
            threshold cfg \<le> calculateMatchScore cfg skill (skillDistance env loc skill) urg \<and>
            m = pushedSkill env cfg loc urg skill) \<and>
         sorted_wrt (\<lambda>a b. matchScore b \<le> matchScore a) result \<and>
         int (length result) \<le> maxMatches cfg"
proof -
  let ?n0 = "length (skill_queries w)"
  let ?tags = "searchTags dt req"
  let ?all = "pushedBy env cfg loc urg ?n0 ?tags"
  have res: "result = slice0 (sort_key (\<lambda>m. - matchScore m) ?all) (maxMatches cfg)"
    and w': "skill_queries w' = skill_queries w @ ?tags"
    using run by (auto simp: findSkillMatches_eq)
  have origin: "\<exists>n skill.
            ?n0 \<le> n \<and> n < length (skill_queries w') \<and>
            skill \<in> set (skillsOf env n) \<and>
            skillType skill = skill_queries w' ! n \<and>
            availability skill = ''available'' \<and> verified skill = True \<and>
            threshold cfg \<le> calculateMatchScore cfg skill (skillDistance env loc skill) urg \<and>
            m = pushedSkill env cfg loc urg skill" if "m \<in> set result" for m
  proof -
    from that have "m \<in> set ?all" using res set_slice0 by fastforce
    then obtain i s where i: "i < length ?tags" and s: "s \<in> set (skillsOf env (?n0 + i))"
      and q: "qualifies env cfg loc urg (?tags ! i) s" and m: "m = pushedSkill env cfg loc urg s"
      unfolding set_pushedBy by blast
    have "skill_queries w' ! (?n0 + i) = ?tags ! i" by (simp add: w')
    with i s q m show ?thesis
      by (intro exI[of _ "?n0 + i"] exI[of _ s]) (simp add: w' qualifies_def)
  qed
  have "sorted_wrt (\<lambda>a b. matchScore b \<le> matchScore a) result"
    unfolding res by (intro sorted_wrt_slice0 descending_sort_key)
  moreover have "int (length result) \<le> maxMatches cfg"
    unfolding res using cap by (rule length_slice0)
  ultimately show ?thesis using origin by blast
qed

theorem findSkillMatches_sound_witness:
  "findSkillMatches registry defaults ''fire'' [''swimmer'', ''medic''] origin ''medium'' idle =
     ([pushedSkill registry defaults origin ''medium'' (volunteer (Some 8) ''expert''),
       pushedSkill registry defaults origin ''medium'' (volunteer (Some 9) ''none'')],
      idle\<lparr>skill_queries := [''swimmer'', ''medic'']\<rparr>) \<and>
   0 \<le> maxMatches defaults \<and>
   (\<exists>n skill. n < 2 \<and> skill \<in> set (skillsOf registry n) \<and>
      skillType skill = [''swimmer'', ''medic''] ! n \<and>
      availability skill = ''available'' \<and> verified skill = True \<and>
      threshold defaults
        \<le> calculateMatchScore defaults skill (skillDistance registry origin skill) ''medium'' \<and>
      pushedSkill registry defaults origin ''medium'' (volunteer (Some 9) ''none'') =
        pushedSkill registry defaults origin ''medium'' skill) \<and>
   matchScore (pushedSkill registry defaults origin ''medium'' (volunteer (Some 9) ''none''))
     \<le> matchScore (pushedSkill registry defaults origin ''medium''
                     (volunteer (Some 8) ''expert'')) \<and>
   int (length [volunteer (Some 8) ''expert'', volunteer (Some 9) ''none''])
     \<le> maxMatches defaults"
proof -
  have run: "findSkillMatches registry defaults ''fire'' [''swimmer'', ''medic''] origin
               ''medium'' idle =
     ([pushedSkill registry defaults origin ''medium'' (volunteer (Some 8) ''expert''),
       pushedSkill registry defaults origin ''medium'' (volunteer (Some 9) ''none'')],
      idle\<lparr>skill_queries := [''swimmer'', ''medic'']\<rparr>)"
    by (simp add: findSkillMatches_eq run_simps)
  have cap: "0 \<le> maxMatches defaults" by (simp add: maxMatches_def defaults_def)
  note sound = findSkillMatches_sound [OF run cap]
  from sound have "\<exists>n skill. n < 2 \<and> skill \<in> set (skillsOf registry n) \<and>
      skillType skill = [''swimmer'', ''medic''] ! n \<and>
      availability skill = ''available'' \<and> verified skill = True \<and>
      threshold defaults
        \<le> calculateMatchScore defaults skill (skillDistance registry origin skill) ''medium'' \<and>
      pushedSkill registry defaults origin ''medium'' (volunteer (Some 9) ''none'') =
        pushedSkill registry defaults origin ''medium'' skill"
    by (simp add: idle_def numeral_2_eq_2)
  moreover from sound have
    "matchScore (pushedSkill registry defaults origin ''medium'' (volunteer (Some 9) ''none''))
       \<le> matchScore (pushedSkill registry defaults origin ''medium''
                       (volunteer (Some 8) ''expert''))"
    by simp
  moreover from sound have
    "int (length [volunteer (Some 8) ''expert'', volunteer (Some 9) ''none''])
       \<le> maxMatches defaults"
    by simp
  ultimately show ?thesis using run cap by blast
qed

text \<open>
  C6. The tags \<^verbatim>\<open>findSkillMatches\<close> sends requests for are the explicit required skills
  when there are any, and otherwise the entry of the disaster type in the fixed table (for
  "fire": firefighter, electrician, medic, smoke_diver); for a disaster type outside the
  six of the table and no required skills, no request is sent and the result is empty.
\<close>

theorem findSkillMatches_tags:
  assumes run: "findSkillMatches env cfg dt req loc urg w = (result, w')"
  shows "(req \<noteq> [] \<longrightarrow> skill_queries w' = skill_queries w @ req) \<and>
         (req = [] \<and> dt = ''flood'' \<longrightarrow> skill_queries w' =
            skill_queries w @ [''boat_operator'', ''swimmer'', ''medic'', ''rescue_diver'']) \<and>
         (req = [] \<and> dt = ''earthquake'' \<longrightarrow> skill_queries w' =
            skill_queries w @ [''rescuer'', ''structural_engineer'', ''medic'', ''heavy_lifting'']) \<and>
         (req = [] \<and> dt = ''cyclone'' \<longrightarrow> skill_queries w' =
            skill_queries w @
              [''shelter_manager'', ''logistics'', ''medic'', ''evacuation_specialist'']) \<and>
         (req = [] \<and> dt = ''fire'' \<longrightarrow> skill_queries w' =
            skill_queries w @ [''firefighter'', ''electrician'', ''medic'', ''smoke_diver'']) \<and>
         (req = [] \<and> dt = ''tsunami'' \<longrightarrow> skill_queries w' =
            skill_queries w @ [''rescue_diver'', ''medic'', ''boat_operator'', ''swimmer'']) \<and>
         (req = [] \<and> dt = ''landslide'' \<longrightarrow> skill_queries w' =
            skill_queries w @ [''rescuer'', ''medic'', ''heavy_lifting'', ''structural_engineer'']) \<and>
         (req = [] \<and>
          dt \<notin> {''flood'', ''earthquake'', ''cyclone'', ''fire'', ''tsunami'', ''landslide''} \<longrightarrow>
            skill_queries w' = skill_queries w \<and> result = [])"
proof -
  have w': "skill_queries w' = skill_queries w @ searchTags dt req"
    and res: "result = slice0 (sort_key (\<lambda>m. - matchScore m)
                (pushedBy env cfg loc urg (length (skill_queries w)) (searchTags dt req)))
                (maxMatches cfg)"
    using run by (auto simp: findSkillMatches_eq)
  have explicit: "req \<noteq> [] \<Longrightarrow> searchTags dt req = req"
    by (simp add: searchTags_def)
  have table: "searchTags ''flood'' [] = [''boat_operator'', ''swimmer'', ''medic'', ''rescue_diver'']"
    "searchTags ''earthquake'' [] = [''rescuer'', ''structural_engineer'', ''medic'', ''heavy_lifting'']"
    "searchTags ''cyclone'' [] = [''shelter_manager'', ''logistics'', ''medic'', ''evacuation_specialist'']"
    "searchTags ''fire'' [] = [''firefighter'', ''electrician'', ''medic'', ''smoke_diver'']"
    "searchTags ''tsunami'' [] = [''rescue_diver'', ''medic'', ''boat_operator'', ''swimmer'']"
    "searchTags ''landslide'' [] = [''rescuer'', ''medic'', ''heavy_lifting'', ''structural_engineer'']"
    by (simp_all add: searchTags_def DISASTER_SKILL_MAP_def)
  have unknown: "searchTags dt [] = []"
    if "dt \<notin> {''flood'', ''earthquake'', ''cyclone'', ''fire'', ''tsunami'', ''landslide''}"
    using that by (simp add: searchTags_def DISASTER_SKILL_MAP_def)
  have none: "slice0 (sort_key (\<lambda>m. - matchScore m)
                (pushedBy env cfg loc urg (length (skill_queries w)) [])) (maxMatches cfg) = []"
    by (simp add: slice0_def)
  show ?thesis
    unfolding w' res using explicit table unknown none by auto
qed

text \<open>
  C10. With no required resources, \<^verbatim>\<open>findResourceMatches\<close> returns the empty sequence and
  leaves the state as it was: no request goes to the resource registry, whatever the
  disaster type, location and urgency.
\<close>

theorem findResourceMatches_empty:
  "findResourceMatches env cfg dt [] loc urg w = ([], w)"
  by (simp add: findResourceMatches_def slice0_def)

theorem findSkillMatches_tags_witness:
  "skill_queries (snd (findSkillMatches registry defaults ''fire'' [''swimmer'', ''medic'']
                         origin ''medium'' idle)) = skill_queries idle @ [''swimmer'', ''medic''] \<and>
   skill_queries (snd (findSkillMatches registry defaults ''fire'' [] origin ''medium'' idle)) =
     skill_queries idle @ [''firefighter'', ''electrician'', ''medic'', ''smoke_diver''] \<and>
   findSkillMatches registry defaults ''volcano'' [] origin ''medium'' idle = ([], idle) \<and>
   findSkillMatches registry defaults ''constructor'' [] origin ''medium'' idle = ([], idle)"
proof -
  have a: "skill_queries (snd (findSkillMatches registry defaults ''fire''
             [''swimmer'', ''medic''] origin ''medium'' idle)) =
           skill_queries idle @ [''swimmer'', ''medic'']"
    using findSkillMatches_tags [where env = registry and cfg = defaults and dt = "''fire''"
        and req = "[''swimmer'', ''medic'']" and loc = origin and urg = "''medium''" and w = idle,
        OF surjective_pairing]
    by simp
  have b: "skill_queries (snd (findSkillMatches registry defaults ''fire'' [] origin
             ''medium'' idle)) =
           skill_queries idle @ [''firefighter'', ''electrician'', ''medic'', ''smoke_diver'']"
    using findSkillMatches_tags [where env = registry and cfg = defaults and dt = "''fire''"
        and req = "[]" and loc = origin and urg = "''medium''" and w = idle,
        OF surjective_pairing]
    by simp
  have c: "findSkillMatches registry defaults ''volcano'' [] origin ''medium'' idle = ([], idle)"
    using findSkillMatches_tags [where env = registry and cfg = defaults and dt = "''volcano''"
        and req = "[]" and loc = origin and urg = "''medium''" and w = idle,
        OF surjective_pairing]
    by (simp add: findSkillMatches_eq searchTags_def DISASTER_SKILL_MAP_def
        object_prototype_keys_def slice0_def)
  have d: "findSkillMatches registry defaults ''constructor'' [] origin ''medium'' idle =
             ([], idle)"
    using findSkillMatches_tags [where env = registry and cfg = defaults and dt = "''constructor''"
        and req = "[]" and loc = origin and urg = "''medium''" and w = idle,
        OF surjective_pairing]
    by (simp add: findSkillMatches_def DISASTER_SKILL_MAP_def object_prototype_keys_def)
  from a b c d show ?thesis by blast
qed

text \<open>A failed request counts as a response without candidates.\<close>

lemma pushedBy_cong:
  assumes "\<And>n. skillsOf env' n = skillsOf env n"
    and "calculateDistance env' = calculateDistance env"
  shows "pushedBy env' cfg loc urg n tags = pushedBy env cfg loc urg n tags"
proof -
  have p: "pushedSkill env' cfg loc urg = pushedSkill env cfg loc urg"
    by (rule ext) (simp add: pushedSkill_def skillDistance_def assms(2))
  have q: "qualifies env' cfg loc urg tag = qualifies env cfg loc urg tag" for tag
    by (rule ext) (simp add: qualifies_def skillDistance_def assms(2))
  show ?thesis
    by (induction tags arbitrary: n) (simp_all add: p q assms(1))
qed

lemma skillsOf_failed:
  "skills_get env k = Inl e \<Longrightarrow>
   skillsOf (env\<lparr>skills_get := (skills_get env)(k := Inr (Some []))\<rparr>) n = skillsOf env n"
  by (simp add: skillsOf_def)

lemma length_sort_key_slice0:
  "int (length xs) \<le> n \<Longrightarrow> set (slice0 (sort_key f xs) n) = set xs"
  by (simp add: slice0_all)

lemma slice0_nonempty: "xs \<noteq> [] \<Longrightarrow> 1 \<le> n \<Longrightarrow> slice0 xs n \<noteq> []"
  by (cases xs) (auto simp: slice0_def take_Cons')

text \<open>
  C7, as amended. When the request sent for one tag fails, \<^verbatim>\<open>findSkillMatches\<close> returns
  what it returns when that request yields no candidates, and goes through the other tags.
  When another tag's request yields a qualifying candidate, the result is not empty
  provided the maximum match count is at least 1, and it holds the candidate's match
  provided the matches of all tags together are no more than the maximum match count.
\<close>

theorem findSkillMatches_failed_query:
  assumes run: "findSkillMatches env cfg dt req loc urg w = (result, w')"
    and k: "length (skill_queries w) \<le> k" "k < length (skill_queries w')"
    and fail: "skills_get env k = Inl e"
  shows "findSkillMatches (env\<lparr>skills_get := (skills_get env)(k := Inr (Some []))\<rparr>)
           cfg dt req loc urg w = (result, w') \<and>
         (\<forall>n skill.
            length (skill_queries w) \<le> n \<and> n < length (skill_queries w') \<and>
            skill \<in> set (skillsOf env n) \<and>
            qualifies env cfg loc urg (skill_queries w' ! n) skill \<longrightarrow>
              (1 \<le> maxMatches cfg \<longrightarrow> result \<noteq> []) \<and>
              (int (length (pushedBy env cfg loc urg (length (skill_queries w))
                              (searchTags dt req))) \<le> maxMatches cfg \<longrightarrow>
                 pushedSkill env cfg loc urg skill \<in> set result))"
proof
  let ?env' = "env\<lparr>skills_get := (skills_get env)(k := Inr (Some []))\<rparr>"
  let ?n0 = "length (skill_queries w)"
  let ?tags = "searchTags dt req"
  let ?all = "pushedBy env cfg loc urg ?n0 ?tags"
  have res: "result = slice0 (sort_key (\<lambda>m. - matchScore m) ?all) (maxMatches cfg)"
    and w': "skill_queries w' = skill_queries w @ ?tags"
    using run by (auto simp: findSkillMatches_eq)
  have "pushedBy ?env' cfg loc urg ?n0 ?tags = ?all"
    by (rule pushedBy_cong) (simp_all add: skillsOf_failed [OF fail])
  then show "findSkillMatches ?env' cfg dt req loc urg w = (result, w')"
    using run by (simp add: findSkillMatches_eq)
  show "\<forall>n skill.
            ?n0 \<le> n \<and> n < length (skill_queries w') \<and>
            skill \<in> set (skillsOf env n) \<and>
            qualifies env cfg loc urg (skill_queries w' ! n) skill \<longrightarrow>
              (1 \<le> maxMatches cfg \<longrightarrow> result \<noteq> []) \<and>
              (int (length ?all) \<le> maxMatches cfg \<longrightarrow>
                 pushedSkill env cfg loc urg skill \<in> set result)"
  proof (intro allI impI, elim conjE)
    fix n skill
    assume n: "?n0 \<le> n" "n < length (skill_queries w')"
      and s: "skill \<in> set (skillsOf env n)"
      and q: "qualifies env cfg loc urg (skill_queries w' ! n) skill"
    define i where "i = n - ?n0"
    have i: "i < length ?tags" "n = ?n0 + i" using n by (auto simp: i_def w')
    have "skill_queries w' ! n = ?tags ! i" by (simp add: w' i(2))
    with s q i have mem: "pushedSkill env cfg loc urg skill \<in> set ?all"
      unfolding set_pushedBy by auto
    then have ne: "sort_key (\<lambda>m. - matchScore m) ?all \<noteq> []"
      by (metis empty_iff empty_set set_sort)
    have "result \<noteq> []" if "1 \<le> maxMatches cfg"
      unfolding res using ne that by (rule slice0_nonempty)
    moreover have "pushedSkill env cfg loc urg skill \<in> set result"
      if "int (length ?all) \<le> maxMatches cfg"
      unfolding res using that mem by (simp add: length_sort_key_slice0)
    ultimately show "(1 \<le> maxMatches cfg \<longrightarrow> result \<noteq> []) \<and>
              (int (length ?all) \<le> maxMatches cfg \<longrightarrow>
                 pushedSkill env cfg loc urg skill \<in> set result)"
      by blast
  qed
qed

text \<open>
  The claim as stated fails when there are more qualifying candidates than the maximum
  match count: with a count of 1, a failed request for "swimmer" and two qualifying
  medics, the result leaves the medic with the lower score out.
\<close>

theorem findSkillMatches_truncated_counterexample:
  "skills_get registry 0 = Inl AxiosError \<and>
   volunteer (Some 9) ''none'' \<in> set (skillsOf registry 1) \<and>
   qualifies registry (defaults\<lparr>MAX_MATCHES_PER_REQUEST := Some 1\<rparr>) origin ''medium''
     ''medic'' (volunteer (Some 9) ''none'') \<and>
   pushedSkill registry (defaults\<lparr>MAX_MATCHES_PER_REQUEST := Some 1\<rparr>) origin ''medium''
     (volunteer (Some 9) ''none'')
     \<notin> set (fst (findSkillMatches registry (defaults\<lparr>MAX_MATCHES_PER_REQUEST := Some 1\<rparr>)
                    ''fire'' [''swimmer'', ''medic''] origin ''medium'' idle)) \<and>
   fst (findSkillMatches registry (defaults\<lparr>MAX_MATCHES_PER_REQUEST := Some 1\<rparr>)
          ''fire'' [''swimmer'', ''medic''] origin ''medium'' idle) =
     [pushedSkill registry (defaults\<lparr>MAX_MATCHES_PER_REQUEST := Some 1\<rparr>) origin ''medium''
        (volunteer (Some 8) ''expert'')]"
  by (simp add: findSkillMatches_eq run_simps)

theorem findSkillMatches_failed_query_witness:
  "skills_get registry 0 = Inl AxiosError \<and>
   findSkillMatches (registry\<lparr>skills_get := (skills_get registry)(0 := Inr (Some []))\<rparr>)
     defaults ''fire'' [''swimmer'', ''medic''] origin ''medium'' idle =
   findSkillMatches registry defaults ''fire'' [''swimmer'', ''medic''] origin ''medium'' idle \<and>
   length (fst (findSkillMatches registry defaults ''fire'' [''swimmer'', ''medic''] origin
                  ''medium'' idle)) = 2 \<and>
   pushedSkill registry defaults origin ''medium'' (volunteer (Some 9) ''none'')
     \<in> set (fst (findSkillMatches registry defaults ''fire'' [''swimmer'', ''medic''] origin
                   ''medium'' idle))"
proof -
  let ?run = "findSkillMatches registry defaults ''fire'' [''swimmer'', ''medic''] origin
                ''medium'' idle"
  have fail: "skills_get registry 0 = Inl AxiosError" by (simp add: registry_def)
  have k: "length (skill_queries idle) \<le> 0" "0 < length (skill_queries (snd ?run))"
    by (simp_all add: findSkillMatches_eq searchTags_def idle_def)
  note th = findSkillMatches_failed_query [OF surjective_pairing k fail]
  have same: "findSkillMatches
                (registry\<lparr>skills_get := (skills_get registry)(0 := Inr (Some []))\<rparr>)
                defaults ''fire'' [''swimmer'', ''medic''] origin ''medium'' idle = ?run"
    using th by simp
  have pre: "length (skill_queries idle) \<le> 1 \<and> 1 < length (skill_queries (snd ?run)) \<and>
             volunteer (Some 9) ''none'' \<in> set (skillsOf registry 1) \<and>
             qualifies registry defaults origin ''medium'' (skill_queries (snd ?run) ! 1)
               (volunteer (Some 9) ''none'')"
    by (simp add: findSkillMatches_eq run_simps)
  have few: "int (length (pushedBy registry defaults origin ''medium''
                            (length (skill_queries idle)) (searchTags ''fire''
                               [''swimmer'', ''medic'']))) \<le> maxMatches defaults"
    by (simp add: run_simps)
  have "pushedSkill registry defaults origin ''medium'' (volunteer (Some 9) ''none'')
          \<in> set (fst ?run)"
    using th pre few by blast
  moreover have "length (fst ?run) = 2"
    by (simp add: findSkillMatches_eq run_simps)
  ultimately show ?thesis using fail same by blast
qed

subsection \<open>Resources\<close>

lemma collectResources_eq:
  "collectResources env loc rs acc = acc @ map (pushedResource env loc) rs"
  by (induction rs arbitrary: acc)
     (simp_all add: Let_def pushedResource_def resourceDistance_def)

lemma resourceLoop_eq:
  "resourceLoop env loc tags (acc, w) =
     (acc @ collectedBy env loc (length (resource_queries w)) tags,
      w\<lparr>resource_queries := resource_queries w @ tags\<rparr>)"
proof (induction tags arbitrary: acc w)
  case Nil
  show ?case by simp
next
  case (Cons tag rest)
  show ?case
    by (cases "resources_get env (length (resource_queries w))")
       (simp_all add: Cons.IH Let_def collectResources_eq resourcesOf_def split: option.splits)
qed

lemma set_collectedBy:
  "m \<in> set (collectedBy env loc n tags) \<Longrightarrow>
     \<exists>i < length tags. \<exists>r \<in> set (resourcesOf env (n + i)).
        resourceType r = tags ! i \<and> availability r = ''available'' \<and>
        m = pushedResource env loc r"
proof (induction tags arbitrary: n)
  case Nil
  then show ?case by simp
next
  case (Cons tag rest)
  from Cons.prems consider
    (here) "\<exists>r \<in> set (resourcesOf env n).
              resourceType r = tag \<and> availability r = ''available'' \<and>
              m = pushedResource env loc r"
  | (later) "m \<in> set (collectedBy env loc (Suc n) rest)"
    by auto
  then show ?case
  proof cases
    case here
    then have "\<exists>r \<in> set (resourcesOf env (n + 0)).
                 resourceType r = (tag # rest) ! 0 \<and> availability r = ''available'' \<and>
                 m = pushedResource env loc r"
      by simp
    then show ?thesis by (intro exI[of _ 0]) simp
  next
    case later
    then obtain i r where "i < length rest" "r \<in> set (resourcesOf env (Suc n + i))"
      "resourceType r = rest ! i" "availability r = ''available''"
      "m = pushedResource env loc r"
      using Cons.IH by blast
    then show ?thesis by (intro exI[of _ "Suc i"]) auto
  qed
qed

lemma findResourceMatches_eq:
  "findResourceMatches env cfg dt req loc urg w =
     (slice0 (sort_key distance_r (collectedBy env loc (length (resource_queries w)) req))
        (maxMatches cfg),
      w\<lparr>resource_queries := resource_queries w @ req\<rparr>)"
  by (simp add: findResourceMatches_def resourceLoop_eq)

lemma decimal2_8: "decimal2 8 = 8"
  by (simp add: decimal2_def)

lemma saveResourceMatch_row:
  assumes "saveResourceMatch env matchId rid m v = (Inr u, v')"
  shows "\<exists>row. matches_table v' = matches_table v @ [row] \<and>
               resource_id row = Some (resourceId_m m) \<and>
               match_score row = 8 \<and> trust_score row = None"
  using assms by (auto simp: saveResourceMatch_def Let_def decimal2_8 split: if_splits)

text \<open>
  C5. Every element of the result of \<^verbatim>\<open>findResourceMatches\<close> is the match of a candidate
  that a request of this run returned, whose resource type is the requested type the
  request was sent for and whose availability is "available". The result is sorted by
  non-decreasing distance and its length is at most the maximum match count (a count that
  is not negative). The row stored for a resource match has match score 8.0 and no trust
  score.
\<close>

theorem findResourceMatches_sound:
  assumes run: "findResourceMatches env cfg dt req loc urg w = (result, w')"
    and cap: "0 \<le> maxMatches cfg"
  shows "(\<forall>m \<in> set result. \<exists>n resource.
            length (resource_queries w) \<le> n \<and> n < length (resource_queries w') \<and>
            resource \<in> set (resourcesOf env n) \<and>
            resourceType resource = resource_queries w' ! n \<and>
            resourceType resource \<in> set req \<and>
            availability resource = ''available'' \<and>
            m = pushedResource env loc resource) \<and>
         sorted_wrt (\<lambda>a b. distance_r a \<le> distance_r b) result \<and>
         int (length result) \<le> maxMatches cfg \<and>
         (\<forall>m \<in> set result. \<forall>matchId rid v u v'.
            saveResourceMatch env matchId rid m v = (Inr u, v') \<longrightarrow>
            (\<exists>row. matches_table v' = matches_table v @ [row] \<and>
                   resource_id row = Some (resourceId_m m) \<and>
                   match_score row = 8.0 \<and> trust_score row = None))"
proof -
  let ?n0 = "length (resource_queries w)"
  let ?all = "collectedBy env loc ?n0 req"
  have res: "result = slice0 (sort_key distance_r ?all) (maxMatches cfg)"
    and w': "resource_queries w' = resource_queries w @ req"
    using run by (auto simp: findResourceMatches_eq)
  have origin: "\<exists>n resource.
            ?n0 \<le> n \<and> n < length (resource_queries w') \<and>
            resource \<in> set (resourcesOf env n) \<and>
            resourceType resource = resource_queries w' ! n \<and>
            resourceType resource \<in> set req \<and>
            availability resource = ''available'' \<and>
            m = pushedResource env loc resource" if "m \<in> set result" for m
  proof -
    from that have "m \<in> set ?all" using res set_slice0 by fastforce
    then obtain i r where i: "i < length req" and r: "r \<in> set (resourcesOf env (?n0 + i))"
      and t: "resourceType r = req ! i" and a: "availability r = ''available''"
      and m: "m = pushedResource env loc r"
      using set_collectedBy by blast
    have "resource_queries w' ! (?n0 + i) = req ! i" by (simp add: w')
    with i r t a m show ?thesis
      by (intro exI[of _ "?n0 + i"] exI[of _ r]) (simp add: w')
  qed
  have "sorted_wrt (\<lambda>a b. distance_r a \<le> distance_r b) result"
    unfolding res by (intro sorted_wrt_slice0 ascending_sort_key)
  moreover have "int (length result) \<le> maxMatches cfg"
    unfolding res using cap by (rule length_slice0)
  moreover have "\<exists>row. matches_table v' = matches_table v @ [row] \<and>
                   resource_id row = Some (resourceId_m m) \<and>
                   match_score row = 8.0 \<and> trust_score row = None"
    if "saveResourceMatch env matchId rid m v = (Inr u, v')" for m matchId rid v u v'
    using saveResourceMatch_row [OF that] by simp
  ultimately show ?thesis using origin by blast
qed

theorem findResourceMatches_sound_witness:
  "findResourceMatches registry defaults ''fire'' [''boat''] origin ''medium'' idle =
     ([pushedResource registry origin (boat ''u8'' 1),
       pushedResource registry origin (boat ''u7'' 3)],
      idle\<lparr>resource_queries := [''boat'']\<rparr>) \<and>
   0 \<le> maxMatches defaults \<and>
   (\<exists>n resource. n < 1 \<and> resource \<in> set (resourcesOf registry n) \<and>
      resourceType resource = ''boat'' \<and> availability resource = ''available'' \<and>
      pushedResource registry origin (boat ''u8'' 1) = pushedResource registry origin resource) \<and>
   distance_r (pushedResource registry origin (boat ''u8'' 1))
     \<le> distance_r (pushedResource registry origin (boat ''u7'' 3)) \<and>
   2 \<le> maxMatches defaults \<and>
   (\<exists>row. matches_table (snd (saveResourceMatch registry ''match-a'' ''req1''
                               (pushedResource registry origin (boat ''u8'' 1)) idle)) =
            matches_table idle @ [row] \<and>
          resource_id row = Some ''r-u8'' \<and> match_score row = 8.0 \<and> trust_score row = None)"
proof -
  have run: "findResourceMatches registry defaults ''fire'' [''boat''] origin ''medium'' idle =
     ([pushedResource registry origin (boat ''u8'' 1),
       pushedResource registry origin (boat ''u7'' 3)],
      idle\<lparr>resource_queries := [''boat'']\<rparr>)"
    by (simp add: findResourceMatches_eq run_simps)
  have cap: "0 \<le> maxMatches defaults" by (simp add: maxMatches_def defaults_def)
  have saved: "saveResourceMatch registry ''match-a'' ''req1''
                 (pushedResource registry origin (boat ''u8'' 1)) idle =
               (Inr (), snd (saveResourceMatch registry ''match-a'' ''req1''
                 (pushedResource registry origin (boat ''u8'' 1)) idle))"
    by (simp add: saveResourceMatch_def registry_def idle_def)
  note sound = findResourceMatches_sound [OF run cap]
  from sound have "\<exists>n resource. n < 1 \<and> resource \<in> set (resourcesOf registry n) \<and>
      resourceType resource = ''boat'' \<and> availability resource = ''available'' \<and>
      pushedResource registry origin (boat ''u8'' 1) = pushedResource registry origin resource"
    by (simp add: idle_def)
  moreover from sound have
    "distance_r (pushedResource registry origin (boat ''u8'' 1))
       \<le> distance_r (pushedResource registry origin (boat ''u7'' 3))"
    by simp
  moreover from sound have "2 \<le> maxMatches defaults"
    by simp
  moreover from sound saved have
    "\<exists>row. matches_table (snd (saveResourceMatch registry ''match-a'' ''req1''
                               (pushedResource registry origin (boat ''u8'' 1)) idle)) =
            matches_table idle @ [row] \<and>
          resource_id row = Some ''r-u8'' \<and> match_score row = 8.0 \<and> trust_score row = None"
    by (simp add: pushedResource_def boat_def)
  ultimately show ?thesis using run cap by blast
qed

section \<open>Properties of the orchestrator\<close>

lemma saveMatch_cases:
  "saveMatch env matchId rid m w = (r, w') \<Longrightarrow>
     published w' = published w \<and> status_reports w' = status_reports w \<and>
     db_calls w' = Suc (db_calls w) \<and>
     (if db_ok env (db_calls w)
      then r = Inr () \<and> length (matches_table w') = Suc (length (matches_table w))
      else r = Inl DatabaseError \<and> matches_table w' = matches_table w)"
  by (auto simp: saveMatch_def Let_def split: if_splits)

lemma saveResourceMatch_cases:
  "saveResourceMatch env matchId rid m w = (r, w') \<Longrightarrow>
     published w' = published w \<and> status_reports w' = status_reports w \<and>
     db_calls w' = Suc (db_calls w) \<and>
     (if db_ok env (db_calls w)
      then r = Inr () \<and> length (matches_table w') = Suc (length (matches_table w))
      else r = Inl DatabaseError \<and> matches_table w' = matches_table w)"
  by (auto simp: saveResourceMatch_def Let_def split: if_splits)

lemma saveSkillMatches_writes:
  assumes "saveSkillMatches env rid ms (saved, w) = (r, w')"
  shows "published w' = published w \<and> status_reports w' = status_reports w \<and>
         db_calls w \<le> db_calls w' \<and>
         (\<forall>i. db_calls w \<le> i \<and> i < db_calls w' \<and> \<not> db_ok env i \<longrightarrow>
              r = Inl DatabaseError \<and> db_calls w' = Suc i) \<and>
         length (matches_table w') + (if isl r then 1 else 0) =
           length (matches_table w) + (db_calls w' - db_calls w)"
  using assms
proof (induction ms arbitrary: saved w)
  case Nil
  then show ?case by auto
next
  case (Cons m rest)
  let ?id = "''match-'' @ uuidv4 env (uuid_calls w)"
  let ?w1 = "w\<lparr>uuid_calls := Suc (uuid_calls w)\<rparr>"
  obtain r1 w2 where s: "saveMatch env ?id rid m ?w1 = (r1, w2)" by (cases "saveMatch env ?id rid m ?w1")
  note c = saveMatch_cases [OF s]
  show ?case
  proof (cases "db_ok env (db_calls w)")
    case False
    with c s Cons.prems have "r = Inl DatabaseError" "w' = w2"
      by (auto simp: Let_def)
    with c False show ?thesis by (auto simp: le_Suc_eq)
  next
    case True
    with c have r1: "r1 = Inr ()" by simp
    with s Cons.prems have rest: "saveSkillMatches env rid rest (saved @ [SavedSkill m ?id], w2) = (r, w')"
      by (simp add: Let_def)
    note ih = Cons.IH [OF rest]
    have "i = db_calls w \<or> db_calls w2 \<le> i" if "db_calls w \<le> i" for i
      using that c by auto
    with ih c True show ?thesis by (auto simp: )
  qed
qed

lemma saveResourceMatches_writes:
  assumes "saveResourceMatches env rid ms (saved, w) = (r, w')"
  shows "published w' = published w \<and> status_reports w' = status_reports w \<and>
         db_calls w \<le> db_calls w' \<and>
         (\<forall>i. db_calls w \<le> i \<and> i < db_calls w' \<and> \<not> db_ok env i \<longrightarrow>
              r = Inl DatabaseError \<and> db_calls w' = Suc i) \<and>
         length (matches_table w') + (if isl r then 1 else 0) =
           length (matches_table w) + (db_calls w' - db_calls w)"
  using assms
proof (induction ms arbitrary: saved w)
  case Nil
  then show ?case by auto
next
  case (Cons m rest)
  let ?id = "''match-'' @ uuidv4 env (uuid_calls w)"
  let ?w1 = "w\<lparr>uuid_calls := Suc (uuid_calls w)\<rparr>"
  obtain r1 w2 where s: "saveResourceMatch env ?id rid m ?w1 = (r1, w2)"
    by (cases "saveResourceMatch env ?id rid m ?w1")
  note c = saveResourceMatch_cases [OF s]
  show ?case
  proof (cases "db_ok env (db_calls w)")
    case False
    with c s Cons.prems have "r = Inl DatabaseError" "w' = w2"
      by (auto simp: Let_def)
    with c False show ?thesis by (auto simp: le_Suc_eq)
  next
    case True
    with c have r1: "r1 = Inr ()" by simp
    with s Cons.prems have rest:
      "saveResourceMatches env rid rest (saved @ [SavedResource m ?id], w2) = (r, w')"
      by (simp add: Let_def)
    note ih = Cons.IH [OF rest]
    have "i = db_calls w \<or> db_calls w2 \<le> i" if "db_calls w \<le> i" for i
      using that c by auto
    with ih c True show ?thesis by auto
  qed
qed

lemma notifyAll_keeps:
  "db_calls (notifyAll cfg rid saved w) = db_calls w \<and>
   matches_table (notifyAll cfg rid saved w) = matches_table w \<and>
   status_reports (notifyAll cfg rid saved w) = status_reports w"
  by (induction saved arbitrary: w) (simp_all add: publishToQueue_def)

text \<open>
  C8. When a statement that \<^verbatim>\<open>processSOSRequest\<close> sends to the store fails, the run ends
  there with the store's error as its result: the failed statement is the last one sent,
  the table holds exactly the rows of the statements before it, and the run has reported
  no status to the SOS service and published no event.
\<close>

theorem processSOSRequest_write_failure:
  assumes run: "processSOSRequest env cfg sos w = (r, w')"
    and i: "db_calls w \<le> i" "i < db_calls w'"
    and fail: "\<not> db_ok env i"
  shows "r = Inl DatabaseError \<and> db_calls w' = Suc i \<and>
         length (matches_table w') = length (matches_table w) + (i - db_calls w) \<and>
         published w' = published w \<and> status_reports w' = status_reports w"
proof -
  define dt where "dt = (case disasters_get env (disasterId sos) of
                           Inl e \<Rightarrow> ''flood'' | Inr t \<Rightarrow> t)"
  define rs where "rs = (case requiredSkills sos of None \<Rightarrow> [] | Some tags \<Rightarrow> tags)"
  define rr where "rr = (case requiredResources sos of None \<Rightarrow> [] | Some tags \<Rightarrow> tags)"
  obtain sm w1 where f1: "findSkillMatches env cfg dt rs (sos_location sos) (urgency sos) w = (sm, w1)"
    by (cases "findSkillMatches env cfg dt rs (sos_location sos) (urgency sos) w")
  obtain rm w2 where f2: "findResourceMatches env cfg dt rr (sos_location sos) (urgency sos) w1 = (rm, w2)"
    by (cases "findResourceMatches env cfg dt rr (sos_location sos) (urgency sos) w1")
  have w2: "db_calls w2 = db_calls w" "matches_table w2 = matches_table w"
    "published w2 = published w" "status_reports w2 = status_reports w"
    using f1 f2 by (auto simp: findSkillMatches_eq findResourceMatches_eq)
  obtain r3 w3 where s1: "saveSkillMatches env (requestId sos) sm ([], w2) = (r3, w3)"
    by (cases "saveSkillMatches env (requestId sos) sm ([], w2)")
  note a = saveSkillMatches_writes [OF s1]
  show ?thesis
  proof (cases r3)
    case (Inl e)
    with run f1 f2 s1 have out: "r = Inl e" "w' = w3"
      by (auto simp: processSOSRequest_def dt_def rs_def rr_def Let_def)
    from a i fail have "r3 = Inl DatabaseError \<and> db_calls w3 = Suc i"
      unfolding out w2 by blast
    with a Inl i(1) show ?thesis unfolding out w2 by auto
  next
    case (Inr saved)
    obtain r4 w4 where s2: "saveResourceMatches env (requestId sos) rm (saved, w3) = (r4, w4)"
      by (cases "saveResourceMatches env (requestId sos) rm (saved, w3)")
    note b = saveResourceMatches_writes [OF s2]
    have early: "db_ok env j" if "db_calls w \<le> j" "j < db_calls w3" for j
      using a that Inr unfolding w2 by auto
    show ?thesis
    proof (cases r4)
      case (Inl e)
      with run f1 f2 s1 s2 Inr have out: "r = Inl e" "w' = w4"
        by (auto simp: processSOSRequest_def dt_def rs_def rr_def Let_def)
      from early i fail have "db_calls w3 \<le> i" by (meson not_le)
      with b i fail have "r4 = Inl DatabaseError \<and> db_calls w4 = Suc i"
        unfolding out by blast
      with a b Inl Inr i(1) \<open>db_calls w3 \<le> i\<close> show ?thesis unfolding out w2 by auto
    next
      case (Inr all)
      with run f1 f2 s1 s2 \<open>r3 = Inr saved\<close> have "db_calls w' = db_calls w4"
        by (auto simp: processSOSRequest_def dt_def rs_def rr_def Let_def notifyAll_keeps)
      with early i fail have "db_calls w3 \<le> i" "i < db_calls w4" by (auto simp: not_le [symmetric])
      with b fail Inr show ?thesis by auto
    qed
  qed
qed

lemmas save_simps =
  processSOSRequest_def request1_def findSkillMatches_eq findResourceMatches_eq
  DISASTER_SKILL_MAP_def saveMatch_def saveResourceMatch_def decimal2_def Let_def

theorem processSOSRequest_write_failure_witness:
  "db_calls idle \<le> 1 \<and>
   1 < db_calls (snd (processSOSRequest registry defaults request1 idle)) \<and>
   db_ok registry 1 = False \<and>
   fst (processSOSRequest registry defaults request1 idle) = Inl DatabaseError \<and>
   db_calls (snd (processSOSRequest registry defaults request1 idle)) = 2 \<and>
   length (matches_table (snd (processSOSRequest registry defaults request1 idle))) = 1 \<and>
   published (snd (processSOSRequest registry defaults request1 idle)) = [] \<and>
   status_reports (snd (processSOSRequest registry defaults request1 idle)) = []"
proof -
  let ?run = "processSOSRequest registry defaults request1 idle"
  have i: "db_calls idle \<le> 1" "1 < db_calls (snd ?run)"
    by (simp_all add: save_simps run_simps)
  have fail: "\<not> db_ok registry 1" by (simp add: registry_def)
  note th = processSOSRequest_write_failure [OF surjective_pairing i fail]
  have "fst ?run = Inl DatabaseError" using th by simp
  moreover have "db_calls (snd ?run) = 2" using th by simp
  moreover have "length (matches_table (snd ?run)) = 1" using th by (simp add: idle_def)
  moreover have "published (snd ?run) = []" using th by (simp add: idle_def)
  moreover have "status_reports (snd ?run) = []" using th by (simp add: idle_def)
  ultimately show ?thesis using i fail by simp
qed

section \<open>Properties of the accept and reject routes\<close>

lemma no_target_map:
  "\<not> (\<exists>r \<in> set rows. P r) \<Longrightarrow> map (\<lambda>r. if P r then f r else r) rows = rows"
  by (induction rows) auto

lemma filter_empty_iff: "filter P rows = [] \<longleftrightarrow> \<not> (\<exists>r \<in> set rows. P r)"
  by (induction rows) auto

lemma accept_response:
  "fst (accept env cfg mid vid w) =
     (if \<not> db_ok env (db_calls w) then ServerError DatabaseError
      else if \<not> (\<exists>r \<in> set (matches_table w). targets mid vid r) then NOT_FOUND
      else Accepted mid ''accepted'' (Some (clock w)) (clock w))"
proof (cases "filter (targets mid vid) (matches_table w)")
  case Nil
  then show ?thesis
    using filter_empty_iff [of "targets mid vid" "matches_table w"]
    by (simp add: accept_def Let_def)
next
  case (Cons row others)
  then show ?thesis
    using filter_empty_iff [of "targets mid vid" "matches_table w"]
    by (simp add: accept_def Let_def)
qed

lemma reject_response:
  "fst (reject env mid vid reason w) =
     (if \<not> db_ok env (db_calls w) then ServerError DatabaseError
      else if \<not> (\<exists>r \<in> set (matches_table w). targets mid vid r) then NOT_FOUND
      else Rejected mid ''rejected'' (Some (clock w)))"
proof (cases "filter (targets mid vid) (matches_table w)")
  case Nil
  then show ?thesis
    using filter_empty_iff [of "targets mid vid" "matches_table w"]
    by (simp add: reject_def Let_def)
next
  case (Cons row others)
  then show ?thesis
    using filter_empty_iff [of "targets mid vid" "matches_table w"]
    by (simp add: reject_def Let_def)
qed

lemma accept_table:
  "matches_table (snd (accept env cfg mid vid w)) =
     (if db_ok env (db_calls w)
      then map (\<lambda>r. if targets mid vid r
                     then r\<lparr>status := ''accepted'', accepted_at := Some (clock w),
                            updated_at := clock w\<rparr>
                     else r) (matches_table w)
      else matches_table w)"
  by (cases "filter (targets mid vid) (matches_table w)")
     (simp_all add: accept_def Let_def publishToQueue_def)

lemma reject_table:
  "matches_table (snd (reject env mid vid reason w)) =
     (if db_ok env (db_calls w)
      then map (\<lambda>r. if targets mid vid r
                     then r\<lparr>status := ''rejected'', rejected_at := Some (clock w),
                            rejection_reason := reason, updated_at := clock w\<rparr>
                     else r) (matches_table w)
      else matches_table w)"
  by (cases "filter (targets mid vid) (matches_table w)")
     (simp_all add: reject_def Let_def)

lemma accept_published:
  "fst (accept env cfg mid vid w) = NOT_FOUND \<Longrightarrow>
   published (snd (accept env cfg mid vid w)) = published w"
  by (cases "filter (targets mid vid) (matches_table w)")
     (simp_all add: accept_def Let_def split: if_splits)

lemma reject_published:
  "published (snd (reject env mid vid reason w)) = published w"
  by (cases "filter (targets mid vid) (matches_table w)")
     (simp_all add: reject_def Let_def)

text \<open>
  C1, as amended. Accept and Reject succeed exactly when the statement reaches the store
  and some stored match has the given match id and volunteer id, whatever its status:
  the update carries no condition on the status. They answer not-found exactly when the
  statement reaches the store and no stored match has both; the table and the published
  events are then what they were.
\<close>

theorem transition_by_ownership:
  "(fst (accept env cfg mid vid w) = NOT_FOUND \<longleftrightarrow>
      db_ok env (db_calls w) \<and> \<not> (\<exists>r \<in> set (matches_table w). targets mid vid r)) \<and>
   (fst (accept env cfg mid vid w) = Accepted mid ''accepted'' (Some (clock w)) (clock w) \<longleftrightarrow>
      db_ok env (db_calls w) \<and> (\<exists>r \<in> set (matches_table w). targets mid vid r)) \<and>
   (fst (accept env cfg mid vid w) = NOT_FOUND \<longrightarrow>
      matches_table (snd (accept env cfg mid vid w)) = matches_table w \<and>
      published (snd (accept env cfg mid vid w)) = published w) \<and>
   (fst (reject env mid vid reason w) = NOT_FOUND \<longleftrightarrow>
      db_ok env (db_calls w) \<and> \<not> (\<exists>r \<in> set (matches_table w). targets mid vid r)) \<and>
   (fst (reject env mid vid reason w) = Rejected mid ''rejected'' (Some (clock w)) \<longleftrightarrow>
      db_ok env (db_calls w) \<and> (\<exists>r \<in> set (matches_table w). targets mid vid r)) \<and>
   (fst (reject env mid vid reason w) = NOT_FOUND \<longrightarrow>
      matches_table (snd (reject env mid vid reason w)) = matches_table w \<and>
      published (snd (reject env mid vid reason w)) = published w)"
proof -
  have keep_a: "matches_table (snd (accept env cfg mid vid w)) = matches_table w"
    if "fst (accept env cfg mid vid w) = NOT_FOUND"
    using that no_target_map [of "matches_table w" "targets mid vid"]
    by (simp add: accept_response accept_table split: if_splits)
  have keep_r: "matches_table (snd (reject env mid vid reason w)) = matches_table w"
    if "fst (reject env mid vid reason w) = NOT_FOUND"
    using that no_target_map [of "matches_table w" "targets mid vid"]
    by (simp add: reject_response reject_table split: if_splits)
  have "fst (accept env cfg mid vid w) = NOT_FOUND \<longleftrightarrow>
      db_ok env (db_calls w) \<and> \<not> (\<exists>r \<in> set (matches_table w). targets mid vid r)"
    by (simp add: accept_response)
  moreover have
    "fst (accept env cfg mid vid w) = Accepted mid ''accepted'' (Some (clock w)) (clock w) \<longleftrightarrow>
      db_ok env (db_calls w) \<and> (\<exists>r \<in> set (matches_table w). targets mid vid r)"
    by (simp add: accept_response)
  moreover have "fst (reject env mid vid reason w) = NOT_FOUND \<longleftrightarrow>
      db_ok env (db_calls w) \<and> \<not> (\<exists>r \<in> set (matches_table w). targets mid vid r)"
    by (simp add: reject_response)
  moreover have
    "fst (reject env mid vid reason w) = Rejected mid ''rejected'' (Some (clock w)) \<longleftrightarrow>
      db_ok env (db_calls w) \<and> (\<exists>r \<in> set (matches_table w). targets mid vid r)"
    by (simp add: reject_response)
  ultimately show ?thesis
    using keep_a keep_r accept_published reject_published by blast
qed

theorem transition_by_ownership_witness:
  "fst (accept reliable defaults ''match-a'' (Some ''u2'') accepted) = NOT_FOUND \<and>
   matches_table (snd (accept reliable defaults ''match-a'' (Some ''u2'') accepted)) =
     matches_table accepted \<and>
   published (snd (accept reliable defaults ''match-a'' (Some ''u2'') accepted)) =
     published accepted \<and>
   fst (reject reliable ''match-a'' (Some ''u2'') None accepted) = NOT_FOUND \<and>
   matches_table (snd (reject reliable ''match-a'' (Some ''u2'') None accepted)) =
     matches_table accepted \<and>
   fst (accept reliable defaults ''match-a'' (Some ''u1'') pending) =
     Accepted ''match-a'' ''accepted'' (Some (clock pending)) (clock pending)"
proof -
  have ok: "db_ok reliable (db_calls accepted)" "db_ok reliable (db_calls pending)"
    by (simp_all add: reliable_def)
  have stranger: "\<not> (\<exists>r \<in> set (matches_table accepted). targets ''match-a'' (Some ''u2'') r)"
    by (simp add: accepted_def pending_def reliable_def accept_def targets_def
        publishToQueue_def save_simps run_simps)
  have owner: "\<exists>r \<in> set (matches_table pending). targets ''match-a'' (Some ''u1'') r"
    by (simp add: pending_def reliable_def targets_def save_simps run_simps)
  note a = transition_by_ownership
    [of reliable defaults "''match-a''" "Some ''u2''" accepted None]
  note b = transition_by_ownership
    [of reliable defaults "''match-a''" "Some ''u1''" pending None]
  from a ok stranger have
    "fst (accept reliable defaults ''match-a'' (Some ''u2'') accepted) = NOT_FOUND"
    "fst (reject reliable ''match-a'' (Some ''u2'') None accepted) = NOT_FOUND"
    by blast+
  moreover from b ok owner have
    "fst (accept reliable defaults ''match-a'' (Some ''u1'') pending) =
       Accepted ''match-a'' ''accepted'' (Some (clock pending)) (clock pending)"
    by blast
  ultimately show ?thesis using a by blast
qed

text \<open>
  The claim as stated fails on a match that its volunteer has accepted at time 5: a
  second accept at time 7 succeeds and moves the acceptance time to 7, and a reject at
  time 7 succeeds and turns the status to rejected while the acceptance time stays.
\<close>

theorem accept_again_counterexample:
  "map status (matches_table accepted) = [''accepted''] \<and>
   map accepted_at (matches_table accepted) = [Some 5] \<and>
   fst (accept reliable defaults ''match-a'' (Some ''u1'') accepted) =
     Accepted ''match-a'' ''accepted'' (Some 7) 7 \<and>
   map accepted_at
     (matches_table (snd (accept reliable defaults ''match-a'' (Some ''u1'') accepted))) =
     [Some 7] \<and>
   fst (reject reliable ''match-a'' (Some ''u1'') None accepted) =
     Rejected ''match-a'' ''rejected'' (Some 7) \<and>
   map status
     (matches_table (snd (reject reliable ''match-a'' (Some ''u1'') None accepted))) =
     [''rejected''] \<and>
   map accepted_at
     (matches_table (snd (reject reliable ''match-a'' (Some ''u1'') None accepted))) =
     [Some 5]"
  by (simp add: accepted_def pending_def reliable_def accept_def reject_def targets_def
      publishToQueue_def save_simps run_simps)

end
